theory Spec2Isabelle
  imports Main "HOL-Library.Sublist"
begin

section \<open>Text: Python strings as lists of code points\<close>

text \<open>
  A Python \<open>str\<close> is a sequence of Unicode code points (the values of \<open>ord\<close>), so a
  string is a list of integers. The character tables below (\<open>str.isspace\<close>, \<open>str.lower\<close>, the
  regular-expression classes \<open>\w\<close> and \<open>\d\<close>) are those of CPython: the white-space
  table is complete; case mapping, word characters and digits are given for the code
  points below 256 (Basic Latin and Latin-1), every other code point being taken as a
  caseless non-word, non-digit character. The program never produces an integer that is
  not a code point; such a list element is one more caseless non-word character.

  On a text whose code points are all below 256 the tables are those of CPython. Beyond
  that range they are not: \<open>str.lower\<close> maps U+212A to \<open>k\<close> and U+0130 to \<open>i\<close> followed by
  U+0307, \<open>\w\<close> and \<open>\d\<close> accept the letters and decimal digits of every script, and under
  \<open>re.I\<close> the letters \<open>i\<close>, \<open>s\<close> and \<open>k\<close> also match U+0130 and U+0131, U+017F, and U+212A.
  The white-space table, and so \<open>strip\<close>, \<open>split\<close> and the class \<open>\s\<close>, hold for every code
  point. The general statements of this theory are about the structure of the plan, of
  the field list, of the prompts and of the substitution loop, for whatever the detectors
  and the searches return; none of them rests on the value of a table beyond code point
  255, and every evaluation at a concrete input is at a text of Basic Latin characters.
\<close>

type_synonym pystr = "int list"

definition py :: "string \<Rightarrow> pystr" where
  "py s = map of_char s"

definition is_space :: "int \<Rightarrow> bool" where
  "is_space c \<longleftrightarrow>
     (9 \<le> c \<and> c \<le> 13) \<or> (28 \<le> c \<and> c \<le> 32) \<or> c = 133 \<or> c = 160 \<or> c = 5760 \<or>
     (8192 \<le> c \<and> c \<le> 8202) \<or> c = 8232 \<or> c = 8233 \<or> c = 8239 \<or> c = 8287 \<or> c = 12288"

definition is_upper :: "int \<Rightarrow> bool" where
  "is_upper c \<longleftrightarrow> (65 \<le> c \<and> c \<le> 90) \<or> (192 \<le> c \<and> c \<le> 222 \<and> c \<noteq> 215)"

definition lower_cp :: "int \<Rightarrow> int" where
  "lower_cp c = (if is_upper c then c + 32 else c)"

definition is_digit :: "int \<Rightarrow> bool" where
  "is_digit c \<longleftrightarrow> 48 \<le> c \<and> c \<le> 57"

definition is_word :: "int \<Rightarrow> bool" where
  "is_word c \<longleftrightarrow>
     is_digit c \<or> (65 \<le> c \<and> c \<le> 90) \<or> c = 95 \<or> (97 \<le> c \<and> c \<le> 122) \<or>
     c = 170 \<or> c = 178 \<or> c = 179 \<or> c = 181 \<or> c = 185 \<or> c = 186 \<or>
     (188 \<le> c \<and> c \<le> 190) \<or> (192 \<le> c \<and> c \<le> 214) \<or> (216 \<le> c \<and> c \<le> 246) \<or>
     (248 \<le> c \<and> c \<le> 255)"

text \<open>\<open>s.lower()\<close>, \<open>s.strip()\<close>, \<open>s.split()\<close> and \<open>sep.join(xs)\<close>.\<close>

definition lower :: "pystr \<Rightarrow> pystr" where
  "lower s = map lower_cp s"

definition strip :: "pystr \<Rightarrow> pystr" where
  "strip s = rev (dropWhile is_space (rev (dropWhile is_space s)))"

fun split_acc :: "pystr \<Rightarrow> pystr \<Rightarrow> pystr list" where
  "split_acc [] cur = (if cur = [] then [] else [cur])"
| "split_acc (c # cs) cur =
     (if is_space c then (if cur = [] then split_acc cs [] else cur # split_acc cs [])
      else split_acc cs (cur @ [c]))"

definition split :: "pystr \<Rightarrow> pystr list" where
  "split s = split_acc s []"

fun join :: "pystr \<Rightarrow> pystr list \<Rightarrow> pystr" where
  "join sep [] = []"
| "join sep [x] = x"
| "join sep (x # y # ys) = x @ sep @ join sep (y # ys)"

text \<open>\<open>k in t\<close> on strings: \<open>k\<close> occurs in \<open>t\<close> as a contiguous substring.\<close>

fun starts_with :: "pystr \<Rightarrow> pystr \<Rightarrow> bool" where
  "starts_with [] t = True"
| "starts_with (c # cs) [] = False"
| "starts_with (c # cs) (d # ds) = (c = d \<and> starts_with cs ds)"

fun contains :: "pystr \<Rightarrow> pystr \<Rightarrow> bool" where
  "contains k [] = (k = [])"
| "contains k (d # ds) = (starts_with k (d # ds) \<or> contains k ds)"


section \<open>Regular expressions\<close>

text \<open>
  The patterns of \<open>helpers.py\<close> and \<open>runner.py\<close> use literals, character classes,
  bounded and unbounded repetition of a single character class (greedy or lazy),
  sequence, alternation, an optional item, one capturing group, and the assertions
  \<open>\b\<close>, \<open>^\<close> and \<open>$\<close>. The matcher is the backtracking one of the \<open>re\<close> module: for a
  pattern and a start position it lists every end position in the order in which
  backtracking tries them, so that the head of the list is the match \<open>re\<close> reports.
\<close>

datatype cls = Any_but_nl | Space | Digit | Range int int | One_of "int list"

datatype rx =
    Lit pystr
  | Cls cls
  | Rep cls nat "nat option" bool
  | Seq rx rx
  | Alt rx rx
  | Opt rx
  | Grp rx
  | Wordb
  | Bol
  | Eol

type_synonym cap = "(nat \<times> nat) option"

fun cls_ok :: "cls \<Rightarrow> int \<Rightarrow> bool" where
  "cls_ok Any_but_nl c = (c \<noteq> 10)"
| "cls_ok Space c = is_space c"
| "cls_ok Digit c = is_digit c"
| "cls_ok (Range a b) c = (a \<le> c \<and> c \<le> b)"
| "cls_ok (One_of cs) c = (c \<in> set cs)"

text \<open>A literal at the head of the remaining text; with \<open>re.I\<close> both sides are lowered.\<close>

fun lit_at :: "bool \<Rightarrow> pystr \<Rightarrow> pystr \<Rightarrow> bool" where
  "lit_at ic [] t = True"
| "lit_at ic (c # cs) [] = False"
| "lit_at ic (c # cs) (d # ds) =
     ((if ic then lower_cp c = lower_cp d else c = d) \<and> lit_at ic cs ds)"

definition word_at :: "pystr \<Rightarrow> nat \<Rightarrow> bool" where
  "word_at s i \<longleftrightarrow> i < length s \<and> is_word (s ! i)"

definition boundary :: "pystr \<Rightarrow> nat \<Rightarrow> bool" where
  "boundary s p \<longleftrightarrow> (p > 0 \<and> word_at s (p - 1)) \<noteq> word_at s p"

definition rep_counts :: "nat \<Rightarrow> nat option \<Rightarrow> bool \<Rightarrow> nat \<Rightarrow> nat list" where
  "rep_counts lo hi greedy run =
     (let mx = (case hi of None \<Rightarrow> run | Some h \<Rightarrow> min h run);
          ks = [lo ..< Suc mx]
      in if greedy then rev ks else ks)"

definition keep_cap :: "cap \<Rightarrow> nat \<times> cap \<Rightarrow> nat \<times> cap" where
  "keep_cap c r = (fst r, case snd r of None \<Rightarrow> c | Some g \<Rightarrow> Some g)"

primrec rx_ends :: "rx \<Rightarrow> bool \<Rightarrow> bool \<Rightarrow> pystr \<Rightarrow> nat \<Rightarrow> (nat \<times> cap) list" where
  "rx_ends (Lit w) ic ml s p = (if lit_at ic w (drop p s) then [(p + length w, None)] else [])"
| "rx_ends (Cls k) ic ml s p = (if p < length s \<and> cls_ok k (s ! p) then [(Suc p, None)] else [])"
| "rx_ends (Rep k lo hi greedy) ic ml s p =
     map (\<lambda>n. (p + n, None)) (rep_counts lo hi greedy (length (takeWhile (cls_ok k) (drop p s))))"
| "rx_ends (Seq a b) ic ml s p =
     concat (map (\<lambda>r. map (keep_cap (snd r)) (rx_ends b ic ml s (fst r))) (rx_ends a ic ml s p))"
| "rx_ends (Alt a b) ic ml s p = rx_ends a ic ml s p @ rx_ends b ic ml s p"
| "rx_ends (Opt a) ic ml s p = rx_ends a ic ml s p @ [(p, None)]"
| "rx_ends (Grp a) ic ml s p = map (\<lambda>r. (fst r, Some (p, fst r))) (rx_ends a ic ml s p)"
| "rx_ends Wordb ic ml s p = (if boundary s p then [(p, None)] else [])"
| "rx_ends Bol ic ml s p = (if p = 0 \<or> (ml \<and> s ! (p - 1) = 10) then [(p, None)] else [])"
| "rx_ends Eol ic ml s p =
     (if p = length s \<or> (p < length s \<and> s ! p = 10 \<and> (ml \<or> Suc p = length s))
      then [(p, None)] else [])"

text \<open>\<open>pattern.search(s)\<close>: the leftmost start position that has a match.\<close>

fun first_match :: "rx \<Rightarrow> bool \<Rightarrow> bool \<Rightarrow> pystr \<Rightarrow> nat list \<Rightarrow> (nat \<times> nat \<times> cap) option" where
  "first_match r ic ml s [] = None"
| "first_match r ic ml s (b # bs) =
     (case rx_ends r ic ml s b of
        [] \<Rightarrow> first_match r ic ml s bs
      | e # _ \<Rightarrow> Some (b, fst e, snd e))"

definition search_from :: "rx \<Rightarrow> bool \<Rightarrow> bool \<Rightarrow> pystr \<Rightarrow> nat \<Rightarrow> (nat \<times> nat \<times> cap) option" where
  "search_from r ic ml s pos = first_match r ic ml s [pos ..< Suc (length s)]"

definition search :: "rx \<Rightarrow> bool \<Rightarrow> bool \<Rightarrow> pystr \<Rightarrow> bool" where
  "search r ic ml s \<longleftrightarrow> search_from r ic ml s 0 \<noteq> None"

fun seqs :: "rx list \<Rightarrow> rx" where
  "seqs [] = Lit []"
| "seqs [r] = r"
| "seqs (r # rs) = Seq r (seqs rs)"

fun alts :: "rx list \<Rightarrow> rx" where
  "alts [] = Cls (One_of [])"
| "alts [r] = r"
| "alts (r # rs) = Alt r (alts rs)"

definition lits :: "string list \<Rightarrow> rx" where
  "lits ws = alts (map (\<lambda>w. Lit (py w)) ws)"


section \<open>Substitution (\<open>pattern.sub\<close>)\<close>

text \<open>
  Every end position of a match lies between its start and the end of the text; the
  substitution loop terminates by this.
\<close>

lemma lit_at_length: "lit_at ic w t \<Longrightarrow> length w \<le> length t"
  by (induction ic w t rule: lit_at.induct) auto

lemma rep_counts_le: "n \<in> set (rep_counts lo hi greedy run) \<Longrightarrow> n \<le> run"
  by (auto simp: rep_counts_def Let_def split: option.splits if_splits)

lemma rx_ends_bounds:
  "(e, c) \<in> set (rx_ends r ic ml s p) \<Longrightarrow> p \<le> e \<and> e \<le> max p (length s)"
proof (induction r arbitrary: p e c)
  case (Lit w)
  then show ?case by (auto split: if_splits dest!: lit_at_length)
next
  case (Cls k)
  then show ?case by (auto split: if_splits)
next
  case (Rep k lo hi greedy)
  then obtain n where n: "e = p + n"
    "n \<in> set (rep_counts lo hi greedy (length (takeWhile (cls_ok k) (drop p s))))"
    by auto
  have "length (takeWhile (cls_ok k) (drop p s)) \<le> length s - p"
    using length_takeWhile_le [of "cls_ok k" "drop p s"] by simp
  with rep_counts_le [OF n(2)] have "n \<le> length s - p" by simp
  with n(1) show ?case by auto
next
  case (Seq a b)
  then obtain m d c' where y: "(m, d) \<in> set (rx_ends a ic ml s p)"
    and z: "(e, c') \<in> set (rx_ends b ic ml s m)"
    by (auto simp: keep_cap_def)
  from Seq.IH(1) [OF y] Seq.IH(2) [OF z] show ?case by auto
next
  case (Alt a b)
  then show ?case by auto
next
  case (Opt a)
  then show ?case by auto
next
  case (Grp a)
  then show ?case by auto
next
  case Wordb
  then show ?case by (auto split: if_splits)
next
  case Bol
  then show ?case by (auto split: if_splits)
next
  case Eol
  then show ?case by (auto split: if_splits)
qed

lemma first_match_Some:
  "first_match r ic ml s bs = Some (b, e, c) \<Longrightarrow> b \<in> set bs \<and> (e, c) \<in> set (rx_ends r ic ml s b)"
  by (induction bs) (auto split: list.splits)

lemma first_match_None:
  "(\<And>b. b \<in> set bs \<Longrightarrow> rx_ends r ic ml s b = []) \<Longrightarrow> first_match r ic ml s bs = None"
  by (induction bs) auto

lemma first_match_None_iff:
  "first_match r ic ml s bs = None \<longleftrightarrow> (\<forall>b\<in>set bs. rx_ends r ic ml s b = [])"
  by (induction bs) (auto split: list.splits)

lemma search_from_Some:
  assumes "search_from r ic ml s pos = Some (b, e, c)"
  shows "pos \<le> b \<and> b \<le> e \<and> e \<le> length s"
proof -
  from assms have b: "b \<in> set [pos ..< Suc (length s)]"
    and e: "(e, c) \<in> set (rx_ends r ic ml s b)"
    using first_match_Some unfolding search_from_def by blast+
  from rx_ends_bounds [OF e] b show ?thesis by auto
qed

text \<open>
  The loop of \<open>pattern.sub\<close>: the next search starts where the last match ended, and
  after an empty match the next match must not be empty at the same place.
\<close>

definition search_adv ::
  "rx \<Rightarrow> bool \<Rightarrow> bool \<Rightarrow> pystr \<Rightarrow> nat \<Rightarrow> bool \<Rightarrow> (nat \<times> nat \<times> cap) option" where
  "search_adv r ic ml s pos must_advance =
     (if must_advance then
        (case filter (\<lambda>x. pos < fst x) (rx_ends r ic ml s pos) of
           x # _ \<Rightarrow> Some (pos, fst x, snd x)
         | [] \<Rightarrow> search_from r ic ml s (Suc pos))
      else search_from r ic ml s pos)"

lemma search_adv_Some:
  assumes "search_adv r ic ml s pos adv = Some (b, e, c)"
  shows "pos \<le> b \<and> b \<le> e \<and> e \<le> length s \<and> (adv \<and> e = b \<longrightarrow> pos < b)"
proof (cases adv)
  case False
  with assms search_from_Some show ?thesis by (simp add: search_adv_def)
next
  case True
  show ?thesis
  proof (cases "filter (\<lambda>x. pos < fst x) (rx_ends r ic ml s pos)")
    case Nil
    with True assms have "search_from r ic ml s (Suc pos) = Some (b, e, c)"
      by (simp add: search_adv_def)
    from search_from_Some [OF this] show ?thesis by auto
  next
    case (Cons x xs)
    with True assms have be: "b = pos" "e = fst x" by (auto simp: search_adv_def)
    from Cons have "x \<in> set (filter (\<lambda>x. pos < fst x) (rx_ends r ic ml s pos))" by simp
    then have "x \<in> set (rx_ends r ic ml s pos)" "pos < fst x" by auto
    with rx_ends_bounds [of "fst x" "snd x" r ic ml s pos] be show ?thesis by auto
  qed
qed

text \<open>The text of group 1; a group that took no part in the match expands to nothing.\<close>

definition group1 :: "pystr \<Rightarrow> cap \<Rightarrow> pystr" where
  "group1 s c = (case c of None \<Rightarrow> [] | Some (a, b) \<Rightarrow> take (b - a) (drop a s))"

function sub_loop :: "rx \<Rightarrow> bool \<Rightarrow> bool \<Rightarrow> (pystr \<Rightarrow> pystr) \<Rightarrow> pystr \<Rightarrow> nat \<Rightarrow> bool \<Rightarrow> pystr" where
  "sub_loop r ic ml repl s pos must_advance =
     (case search_adv r ic ml s pos must_advance of
        None \<Rightarrow> drop pos s
      | Some (b, e, c) \<Rightarrow>
          take (b - pos) (drop pos s) @ repl (group1 s c) @ sub_loop r ic ml repl s e (e = b))"
  by pat_completeness auto
termination
proof (relation "measure (\<lambda>(r, ic, ml, repl, s, pos, adv).
         2 * (Suc (length s) - pos) + (if adv then 0 else 1))", goal_cases)
  case 1
  show ?case by simp
next
  case (2 r ic ml repl s pos adv x2 b y e c)
  then have "search_adv r ic ml s pos adv = Some (b, e, c)" by simp
  from search_adv_Some [OF this] show ?case by (cases adv) auto
qed

definition sub :: "rx \<Rightarrow> bool \<Rightarrow> bool \<Rightarrow> (pystr \<Rightarrow> pystr) \<Rightarrow> pystr \<Rightarrow> pystr" where
  "sub r ic ml repl s = sub_loop r ic ml repl s 0 False"


section \<open>Intent detection (\<open>intents.py\<close>)\<close>

definition norm :: "pystr \<Rightarrow> pystr" where
  "norm t = join (py '' '') (split (lower (strip t)))"

definition matches :: "pystr list \<Rightarrow> pystr \<Rightarrow> bool" where
  "matches tokens t = list_ex (\<lambda>k. contains k (norm t)) tokens"

definition SUMMARY_TOKENS :: "pystr list" where
  "SUMMARY_TOKENS = map py
     [''summarize'', ''summarise'', ''in one sentence'', ''in 1 sentence'', ''one sentence'',
      ''short summary'', ''concise summary'']"

definition has_summary_intent :: "pystr \<Rightarrow> bool" where
  "has_summary_intent t = matches SUMMARY_TOKENS t"

definition COURSE_TOKENS :: "pystr list" where
  "COURSE_TOKENS = map py
     [''course'', ''courses'', ''class'', ''classes'',
      ''elective'', ''electives'', ''curriculum'', ''advisor'', ''track'',
      ''major'', ''minor'', ''prereq'', ''prereqs'', ''prerequisite'', ''prerequisites'',
      ''credit'', ''credits'', ''unit'', ''units'',
      ''requirement'', ''requirements'', ''eligibility'',
      ''degree plan'', ''graduation requirements'']"

definition has_course_intent :: "pystr \<Rightarrow> bool" where
  "has_course_intent t = matches COURSE_TOKENS t"

definition SCHEDULE_TOKENS :: "pystr list" where
  "SCHEDULE_TOKENS = map py
     [''when'', ''date'', ''time'', ''schedule'', ''deadline'', ''window'', ''period'',
      ''term start'', ''start of term'', ''timetable'', ''calendar'',
      ''add/drop'', ''add drop'', ''census date'',
      ''midterm'', ''midterms'', ''final'', ''finals'',
      ''exam'', ''exams'', ''examination'', ''examinations'',
      ''graduation ceremony'', ''convocation'']"

definition has_schedule_intent :: "pystr \<Rightarrow> bool" where
  "has_schedule_intent t = matches SCHEDULE_TOKENS t"

definition POEM_TOKENS :: "pystr list" where
  "POEM_TOKENS = map py
     [''poem'', ''poems'', ''haiku'', ''poetry'', ''write a poem'', ''write poem'', ''verse'',
      ''limerick'']"

definition has_poem_intent :: "pystr \<Rightarrow> bool" where
  "has_poem_intent t = matches POEM_TOKENS t"

text \<open>The last marker of the first group is \<open>cafe\<close> with an acute accent on the \<open>e\<close> (code point 233).\<close>

definition CAMPUS_MARKERS :: "pystr list" where
  "CAMPUS_MARKERS = map py
     [''campus'', ''student life'', ''students'',
      ''social life'',
      ''dorm'', ''dorms'', ''dormitory'', ''hostel'', ''residence hall'',
      ''library'', ''libraries'', ''quad'', ''student union'',
      ''cafeteria'', ''canteen'', ''mess'', ''coffee shop'', ''cafe''] @ [py ''caf'' @ [233]] @ map py
     [''club'', ''clubs'', ''society'', ''societies'',
      ''lecture hall'', ''classroom'', ''classrooms'',
      ''lab'', ''labs'', ''hallway'',
      ''late-night'', ''late night'', ''study'', ''study sessions'',
      ''orientation'', ''orientation week'', ''welcome week'', ''freshers'', ''freshers week'',
      ''orientation day'', ''club fair'',
      ''exam'', ''exams'', ''midterm'', ''midterms'', ''final'', ''finals'',
      ''fest'', ''fests'', ''festival'', ''festivals'',
      ''hackathon'', ''hackathons'',
      ''tech fest'', ''cultural fest'',
      ''career fair'', ''job fair'',
      ''meetup'', ''meetups'']"

definition poem_is_campus :: "pystr \<Rightarrow> bool" where
  "poem_is_campus t = matches CAMPUS_MARKERS t"


section \<open>Routing constants and patterns (\<open>helpers.py\<close>)\<close>

definition poet :: pystr where "poet = py ''poet''"
definition scheduler :: pystr where "scheduler = py ''scheduler''"
definition advisor :: pystr where "advisor = py ''advisor''"

definition AGENT_KEYS :: "pystr list" where
  "AGENT_KEYS = [poet, scheduler, advisor]"

text \<open>\<open>AGENT_ORDER.get(k, 99)\<close>.\<close>

definition AGENT_ORDER :: "pystr \<Rightarrow> nat" where
  "AGENT_ORDER k =
     (if k = poet then 0 else if k = scheduler then 1 else if k = advisor then 2 else 99)"

definition HANDOFF_START :: pystr where
  "HANDOFF_START = py ''Triage''"

text \<open>\<open>DISPLAY_TO_KEY.get(name, "advisor")\<close>.\<close>

definition DISPLAY_TO_KEY :: "pystr \<Rightarrow> pystr" where
  "DISPLAY_TO_KEY n =
     (if n = py ''UniversityPoet'' then poet
      else if n = py ''SchedulingAssistant'' then scheduler
      else advisor)"

definition spaces :: rx where
  "spaces = Rep Space 0 None True"

definition opt_s :: rx where
  "opt_s = Opt (Lit (py ''s''))"

definition P_MIDTERM :: rx where
  "P_MIDTERM = seqs [Wordb, Grp (lits [''midterm'', ''midterms'']), Wordb]"

definition P_FINAL :: rx where
  "P_FINAL = seqs [Wordb, Grp (lits [''final'', ''finals'']), Wordb]"

definition P_EXAM :: rx where
  "P_EXAM = seqs [Wordb, Lit (py ''exam''), Opt (Grp (Lit (py ''s''))), Wordb]"

definition P_ADD_DROP :: rx where
  "P_ADD_DROP = alts
     [seqs [Wordb, Lit (py ''add''), spaces, Opt (Lit (py ''/'')), spaces, Lit (py ''drop''), Wordb],
      seqs [Lit (py ''add''), Cls (One_of (py ''- '')), Lit (py ''drop''), Wordb],
      seqs [Lit (py ''adddrop''), Wordb]]"

definition P_TERM_START :: rx where
  "P_TERM_START = seqs
     [Wordb,
      Grp (alts
        [seqs [Lit (py ''term''), spaces, Lit (py ''start'')],
         seqs [Lit (py ''term''), Wordb, Rep Any_but_nl 0 None True, Wordb, Lit (py ''start'')],
         seqs [Lit (py ''start''), Wordb, Rep Any_but_nl 0 None True, Wordb, Lit (py ''term'')]]),
      Wordb]"

definition P_GRADUATION :: rx where
  "P_GRADUATION = seqs
     [Wordb,
      Grp (alts
        [seqs [Lit (py ''graduation''), Rep Space 1 None True, Lit (py ''ceremony'')],
         Lit (py ''convocation''),
         Lit (py ''ceremony'')]),
      Wordb]"

definition P_CLASS_TIMES :: rx where
  "P_CLASS_TIMES = alts
     [seqs [Wordb, Lit (py ''class''), spaces, Lit (py ''time''), opt_s, Wordb],
      seqs [Wordb, Lit (py ''class''), spaces, Lit (py ''timing''), opt_s, Wordb],
      seqs [Wordb, Lit (py ''class''), spaces, Lit (py ''hour''), opt_s, Wordb]]"

text \<open>Each pattern of the table is compiled with \<open>re.I\<close>.\<close>

definition PATTERNS_TO_FIELDS :: "(rx \<times> pystr) list" where
  "PATTERNS_TO_FIELDS =
     [(P_MIDTERM, py ''midterms_window''),
      (P_FINAL, py ''finals_window''),
      (P_EXAM, py ''finals_window''),
      (P_ADD_DROP, py ''add_drop_deadline''),
      (P_TERM_START, py ''term_start''),
      (P_GRADUATION, py ''graduation_ceremony''),
      (P_CLASS_TIMES, py ''class_times'')]"

definition SPECIFIC_DAY :: rx where
  "SPECIFIC_DAY = seqs
     [Wordb,
      Grp (alts
        [Lit (py ''today''), Lit (py ''tomorrow''), Lit (py ''day after tomorrow''),
         seqs [Rep Digit 4 (Some 4) True, Lit (py ''-''), Rep Digit 2 (Some 2) True,
               Lit (py ''-''), Rep Digit 2 (Some 2) True]]),
      Wordb]"

text \<open>The course-code pattern is the one pattern compiled without \<open>re.I\<close>.\<close>

definition COURSE_CODE :: rx where
  "COURSE_CODE = seqs [Wordb, Rep (Range 65 90) 2 (Some 4) True, Rep Digit 3 (Some 3) True, Wordb]"

definition CLASS_SCHEDULE_PHRASE :: rx where
  "CLASS_SCHEDULE_PHRASE = alts
     [seqs [Wordb, Lit (py ''class schedule''), Wordb],
      seqs [Wordb, Lit (py ''schedule for''), Wordb]]"

definition EXPLICIT_TIME_ASK :: rx where
  "EXPLICIT_TIME_ASK = seqs
     [Wordb,
      Grp (alts
        ([Lit (py ''when''), Lit (py ''what time''), Lit (py ''what times''),
          Lit (py ''what date''), Lit (py ''what dates''), Lit (py ''date''),
          Lit (py ''dates''), Lit (py ''time''), Lit (py ''times''),
          seqs [Lit (py ''schedule''), opt_s],
          Lit (py ''deadline''), Lit (py ''deadlines''), Lit (py ''window''),
          Lit (py ''windows''), Lit (py ''period''), Lit (py ''periods''),
          Lit (py ''timetable''), Lit (py ''calendar''),
          seqs [Lit (py ''add''), Opt (Lit (py ''/'')), spaces, Lit (py ''drop'')],
          Lit (py ''census date''), Lit (py ''start of term''), Lit (py ''term start'')])),
      Wordb]"

definition FIELD_QUESTION :: rx where
  "FIELD_QUESTION = seqs
     [Wordb,
      Grp (alts
        [seqs [Lit (py ''midterm''), opt_s],
         seqs [Lit (py ''final''), opt_s],
         seqs [Lit (py ''exam''), opt_s]]),
      spaces, Lit (py ''?'')]"

definition ADVISE_WORDS_REGEX :: rx where
  "ADVISE_WORDS_REGEX = seqs
     [Wordb,
      Grp (lits
        [''elective'', ''electives'', ''prereq'', ''prereqs'', ''prerequisite'', ''prerequisites'',
         ''credit'', ''credits'', ''unit'', ''units'', ''requirement'', ''requirements'',
         ''eligibility'', ''recommend'', ''recommendation'', ''advisor'', ''advise'', ''suggest'']),
      Wordb]"

definition ADVISE_PHRASES :: "pystr list" where
  "ADVISE_PHRASES = map py
     [''which course'', ''what courses'', ''degree plan'', ''course plan'', ''plan my courses'',
      ''track'']"

section \<open>The orchestrator (\<open>helpers.py\<close>)\<close>

subsection \<open>Agents, sessions and the external runner\<close>

text \<open>
  An agent is passed to the external runner as an object; the orchestration code reads
  only its display name. Instructions, model settings and tools are consumed by the
  runner alone.
\<close>

record agent =
  name :: pystr

definition build_agents :: "(pystr \<times> agent) list" where
  "build_agents =
     [(py ''triage'', \<lparr>name = py ''Triage''\<rparr>),
      (py ''advisor'', \<lparr>name = py ''CourseAdvisor''\<rparr>),
      (py ''scheduler'', \<lparr>name = py ''SchedulingAssistant''\<rparr>),
      (py ''poet'', \<lparr>name = py ''UniversityPoet''\<rparr>)]"

definition get_agents :: "pystr \<Rightarrow> agent option" where
  "get_agents = map_of build_agents"

text \<open>A \<open>SQLiteSession\<close> is a handle: a session identifier and the database file.\<close>

record session =
  sid :: pystr
  db_file :: pystr

text \<open>
  \<open>Runner.run_sync(agent, input=prompt, session=session)\<close> is the external model call.
  It is a parameter of the model: from the agent, the prompt, the session handle and the
  state of the outside world (session store and model service) it either raises, or
  returns a \<open>final_output\<close> (possibly \<open>None\<close>) and the new state of the world.
\<close>

type_synonym ('e, 'w) runner = "agent \<Rightarrow> pystr \<Rightarrow> session \<Rightarrow> 'w \<Rightarrow> 'e + (pystr option \<times> 'w)"

datatype 'e error = KeyError pystr | RunFailure 'e

text \<open>\<open>str(out.final_output or "")\<close>.\<close>

definition str_or_empty :: "pystr option \<Rightarrow> pystr" where
  "str_or_empty out = (case out of None \<Rightarrow> [] | Some t \<Rightarrow> t)"

definition NO_REPLY :: pystr where
  "NO_REPLY = py ''No reply produced.''"

text \<open>
  What \<open>_run\<close> and the forced path of \<open>dispatch_message\<close> keep of a run, said with a test on
  the output rather than on its trimmed form: the placeholder for an absent, empty or
  white-space-only output, the trimmed output otherwise. The source's own form,
  \<open>txt or "No reply produced."\<close> on the trimmed text, is the one in \<open>orch_run\<close> and
  \<open>dispatch_message\<close> below; the two agree (\<open>orch_run_key\<close>).
\<close>

definition reply_text :: "pystr option \<Rightarrow> pystr" where
  "reply_text out =
     (if list_all is_space (str_or_empty out) then NO_REPLY else strip (str_or_empty out))"

subsection \<open>Small utilities\<close>

definition has_advising_action :: "pystr \<Rightarrow> bool" where
  "has_advising_action t =
     (let t = lower t in
      if list_ex (\<lambda>p. contains p t) ADVISE_PHRASES then True
      else search ADVISE_WORDS_REGEX True False t)"

definition requested_schedule_fields :: "pystr \<Rightarrow> pystr list" where
  "requested_schedule_fields msg =
     (let t = lower msg in
      map snd (filter (\<lambda>pf. search (fst pf) True False t) PATTERNS_TO_FIELDS))"

text \<open>The method \<open>_run\<close>: run one agent and return its non-empty final text.\<close>

definition orch_run ::
  "('e, 'w) runner \<Rightarrow> session \<Rightarrow> pystr \<Rightarrow> pystr \<Rightarrow> 'w \<Rightarrow> 'e error + (pystr \<times> 'w)" where
  "orch_run runner sess agent_key prompt w =
     (case get_agents agent_key of
        None \<Rightarrow> Inl (KeyError agent_key)
      | Some a \<Rightarrow>
          (case runner a prompt sess w of
             Inl e \<Rightarrow> Inl (RunFailure e)
           | Inr (out, w') \<Rightarrow>
               (let txt = strip (str_or_empty out)
                in Inr (if txt = [] then NO_REPLY else txt, w'))))"

subsection \<open>Plan building\<close>

text \<open>
  \<open>_build_plan\<close> grows the list \<open>plan\<close> by four conditional appends and then orders it.
  Each append is a function from the plan so far to the plan after it.
\<close>

definition triage_label :: "pystr option \<Rightarrow> pystr" where
  "triage_label out = lower (strip (str_or_empty out))"

definition seed_step :: "pystr \<Rightarrow> pystr list \<Rightarrow> pystr list" where
  "seed_step label plan = (if label \<in> set AGENT_KEYS then plan @ [label] else plan)"

definition poem_step :: "pystr \<Rightarrow> pystr list \<Rightarrow> pystr list" where
  "poem_step message plan =
     (if has_poem_intent message \<and> poem_is_campus message then plan @ [poet] else plan)"

definition explicit_schedule :: "pystr \<Rightarrow> bool" where
  "explicit_schedule message =
     (let time_word = search EXPLICIT_TIME_ASK True False message;
          field_q = search FIELD_QUESTION True False message
      in time_word \<or> field_q)"

definition schedule_step :: "pystr \<Rightarrow> pystr list \<Rightarrow> pystr list" where
  "schedule_step message plan =
     (if has_schedule_intent message then
        (let poem_only = has_poem_intent message \<and> poem_is_campus message
                           \<and> \<not> explicit_schedule message
         in if \<not> poem_only \<and> explicit_schedule message then plan @ [scheduler] else plan)
      else plan)"

definition advisor_step :: "pystr \<Rightarrow> pystr list \<Rightarrow> pystr list" where
  "advisor_step message plan =
     (if (has_course_intent message
            \<and> (\<not> has_schedule_intent message \<or> has_advising_action message))
          \<or> plan = []
      then plan @ [advisor] else plan)"

text \<open>\<open>list(dict.fromkeys(plan))\<close>: the first occurrence of each key, in order.\<close>

fun fromkeys :: "pystr list \<Rightarrow> pystr list \<Rightarrow> pystr list" where
  "fromkeys seen [] = []"
| "fromkeys seen (k # ks) =
     (if k \<in> set seen then fromkeys seen ks else k # fromkeys (seen @ [k]) ks)"

text \<open>\<open>sorted(..., key=...)\<close> is stable, as is \<open>sort_key\<close>.\<close>

definition order_plan :: "pystr list \<Rightarrow> pystr list" where
  "order_plan plan = sort_key AGENT_ORDER (fromkeys [] plan)"

text \<open>The plan after the four appends, and the plan returned.\<close>

definition appended_plan :: "pystr \<Rightarrow> pystr \<Rightarrow> pystr list" where
  "appended_plan label message =
     advisor_step message (schedule_step message (poem_step message (seed_step label [])))"

definition plan_for :: "pystr \<Rightarrow> pystr \<Rightarrow> pystr list" where
  "plan_for label message = order_plan (appended_plan label message)"

definition build_plan ::
  "('e, 'w) runner \<Rightarrow> session \<Rightarrow> pystr \<Rightarrow> 'w \<Rightarrow> 'e error + (pystr list \<times> 'w)" where
  "build_plan runner sess message w =
     (case get_agents (py ''triage'') of
        None \<Rightarrow> Inl (KeyError (py ''triage''))
      | Some a \<Rightarrow>
          (case runner a message sess w of
             Inl e \<Rightarrow> Inl (RunFailure e)
           | Inr (triage_out, w') \<Rightarrow> Inr (plan_for (triage_label triage_out) message, w')))"

subsection \<open>Prompt builders\<close>

definition poet_prompt :: "pystr \<Rightarrow> pystr" where
  "poet_prompt message =
     py ''Write a haiku about campus or student social life based on the user's '' @
     py ''message.'' @
     [10] @
     py ''FORMAT: exactly three lines (5-7-5). No title, no extra text.'' @
     [10] @
     py ''Do not include any dates or scheduling details (like exact days '' @
     py ''or ranges).'' @
     [10] @
     py ''User message: '' @
     message"

definition REFUSAL_PROMPT :: pystr where
  "REFUSAL_PROMPT =
     py ''If the user asks for a per-day or per-course class schedule (e.g., '' @
     [34] @
     py ''today'' @
     [34] @
     py '', '' @
     [34] @
     py ''tomorrow'' @
     [34] @
     py '', a specific date, or a course code like DS201), reply exactly with '' @
     py ''one line:'' @
     [10, 34] @
     py ''Details for that specific schedule are not available in the current '' @
     py ''data.'' @
     [34]"

definition fields_prompt :: "pystr \<Rightarrow> pystr" where
  "fields_prompt field_list =
     py ''Use ONLY the schedule tool and answer strictly from its result. '' @
     py ''Write concise, factual SENTENCES for exactly these fields: '' @
     field_list @
     py ''. Use 'YYYY-MM-DD' for dates and 'to' for ranges. One sentence per '' @
     py ''field. Do NOT include any other fields.''"

definition DEFAULT_PROMPT :: pystr where
  "DEFAULT_PROMPT =
     py ''Use ONLY the schedule tool and answer strictly from its result. '' @
     py ''Write concise, factual SENTENCES for: term_start, add_drop_deadline, '' @
     py ''midterms_window, finals_window, graduation_ceremony. Use 'YYYY-MM-DD' '' @
     py ''for dates and 'to' for ranges. One sentence per field.''"

definition wants_specific :: "pystr \<Rightarrow> bool" where
  "wants_specific message =
     (let msg_lc = lower message in
      search SPECIFIC_DAY True False msg_lc
      \<or> search COURSE_CODE False False message
      \<or> search CLASS_SCHEDULE_PHRASE True False msg_lc)"

definition scheduler_prompt :: "pystr \<Rightarrow> pystr" where
  "scheduler_prompt message =
     (if wants_specific message then REFUSAL_PROMPT
      else
        (let fields = requested_schedule_fields message in
         if fields \<noteq> [] then fields_prompt (join (py '', '') fields)
         else DEFAULT_PROMPT))"

definition advisor_prompt :: "pystr \<Rightarrow> bool \<Rightarrow> pystr" where
  "advisor_prompt message summary =
     (if summary then
        py ''You are the CourseAdvisor. The user asked for a ONE-SENTENCE SUMMARY.'' @
        [10] @
        py ''Rules:'' @
        [10] @
        py ''1) Identify the user's interest area from this turn or prior session '' @
        py ''context.'' @
        [10] @
        py ''2) If recommendations for that interest are not already explicit '' @
        py ''in this turn,    you MUST call `recommend_courses` to obtain ~3'' @
        [8211] @
        py ''4 items.'' @
        [10] @
        py ''3) Then you MUST call `summarize_text` on the recommendations to '' @
        py ''produce    exactly one concise sentence. Do not include dates or '' @
        py ''poetry.'' @
        [10] @
        py ''If the user asks what they asked previously or to recap the last '' @
        py ''recommendations, respond with one concise sentence summarizing that '' @
        py ''prior request/recommendations using session context.'' @
        [10] @
        py ''User message: '' @
        message
      else
        py ''You are the CourseAdvisor. Focus ONLY on course advising (credits, '' @
        py ''requirements, prerequisites, eligibility, recommendations). Do NOT '' @
        py ''include any dates or schedule info.'' @
        [10] @
        py ''Conversation meta (allowed): If the user asks what they asked previously, '' @
        py ''or to recap/clarify earlier recommendations, briefly paraphrase '' @
        py ''the relevant prior request or your last recommendations. This is '' @
        py ''in scope and must NOT trigger the out-of-scope guard.'' @
        [10] @
        py ''Out-of-scope guard: If the message is unrelated to academics (e.g., '' @
        py ''weather, politics, sports, stock prices, exchange rates, news, general '' @
        py ''facts), reply exactly with: '' @
        [34] @
        py ''I can only assist with course advising. Please ask about courses, '' @
        py ''electives, prerequisites, credits, requirements, or eligibility.'' @
        [34] @
        py '' Do NOT call any tools in that case.'' @
        [10] @
        py ''Instructions:'' @
        [10] @
        py ''1) Extract any interest area mentioned by the user (e.g., 'data '' @
        py ''science', 'AI', 'web', 'cloud'; include aliases like 'ML').'' @
        [10] @
        py ''2) If an interest area is present OR was previously discussed in '' @
        py ''session, you MUST call the `recommend_courses` tool with that interest '' @
        py ''and suggest ~3'' @
        [8211] @
        py ''4 options.'' @
        [10] @
        py ''3) If no clear interest area is present, ask ONE focused clarifying '' @
        py ''question and still call `recommend_courses` with the best guess.'' @
        [10] @
        py ''Keep to 2'' @
        [8211] @
        py ''4 concise sentences.'' @
        [10] @
        py ''User message: '' @
        message)"

subsection \<open>Execution\<close>

record segment =
  seg_agent :: pystr
  seg_text :: pystr

record dispatch_result =
  segments :: "segment list"
  handoff_chain :: "pystr list"
  agent_key :: pystr
  agent_name :: pystr
  combined :: pystr

definition agent_display :: "pystr \<Rightarrow> pystr" where
  "agent_display k = (case get_agents k of None \<Rightarrow> [] | Some a \<Rightarrow> name a)"

definition step_prompt :: "pystr \<Rightarrow> pystr \<Rightarrow> pystr" where
  "step_prompt step message =
     (if step = poet then poet_prompt message
      else if step = scheduler then scheduler_prompt message
      else advisor_prompt message (has_summary_intent message))"

text \<open>
  The loop of \<open>dispatch\<close> over the plan. Its three branches differ in the key and the
  prompt builder only; a step that is none of the three keys does nothing.
\<close>

fun run_steps ::
  "('e, 'w) runner \<Rightarrow> session \<Rightarrow> pystr \<Rightarrow> pystr list \<Rightarrow> segment list \<Rightarrow> pystr list \<Rightarrow> 'w
     \<Rightarrow> 'e error + (segment list \<times> pystr list \<times> 'w)" where
  "run_steps runner sess message [] segs chain w = Inr (segs, chain, w)"
| "run_steps runner sess message (step # rest) segs chain w =
     (if step = poet \<or> step = scheduler \<or> step = advisor then
        (case orch_run runner sess step (step_prompt step message) w of
           Inl e \<Rightarrow> Inl e
         | Inr (txt, w') \<Rightarrow>
             run_steps runner sess message rest
               (segs @ [\<lparr>seg_agent = agent_display step, seg_text = txt\<rparr>])
               (chain @ [agent_display step]) w')
      else run_steps runner sess message rest segs chain w)"

definition render :: "segment \<Rightarrow> pystr" where
  "render s = seg_agent s @ py '': '' @ seg_text s"

definition assemble :: "segment list \<Rightarrow> pystr list \<Rightarrow> dispatch_result" where
  "assemble segs chain =
     (let last_agent = (if segs \<noteq> [] then seg_agent (last segs) else py ''CourseAdvisor'');
          last_key = DISPLAY_TO_KEY last_agent
      in \<lparr>segments = segs, handoff_chain = chain, agent_key = last_key,
          agent_name = last_agent, combined = join [10, 10] (map render segs)\<rparr>)"

definition dispatch ::
  "('e, 'w) runner \<Rightarrow> session \<Rightarrow> pystr \<Rightarrow> 'w \<Rightarrow> 'e error + (dispatch_result \<times> 'w)" where
  "dispatch runner sess message w =
     (case build_plan runner sess message w of
        Inl e \<Rightarrow> Inl e
      | Inr (plan, w1) \<Rightarrow>
          (case run_steps runner sess message plan [] [HANDOFF_START] w1 of
             Inl e \<Rightarrow> Inl e
           | Inr (segs, chain, w2) \<Rightarrow> Inr (assemble segs chain, w2)))"

definition dispatch_message ::
  "('e, 'w) runner \<Rightarrow> pystr \<Rightarrow> session \<Rightarrow> pystr option \<Rightarrow> 'w
     \<Rightarrow> 'e error + (dispatch_result \<times> 'w)" where
  "dispatch_message runner message sess force_agent w =
     (case force_agent of
        Some k \<Rightarrow>
          (if k \<in> set AGENT_KEYS then
             (case get_agents k of
                None \<Rightarrow> Inl (KeyError k)
              | Some a \<Rightarrow>
                  (case runner a message sess w of
                     Inl e \<Rightarrow> Inl (RunFailure e)
                   | Inr (out, w') \<Rightarrow>
                       (let r = strip (str_or_empty out);
                            reply = (if r = [] then NO_REPLY else r)
                        in Inr (\<lparr>segments = [\<lparr>seg_agent = name a, seg_text = reply\<rparr>],
                                 handoff_chain = [py ''Forced'', name a],
                                 agent_key = k, agent_name = name a, combined = reply\<rparr>, w'))))
           else dispatch runner sess message w)
      | None \<Rightarrow> dispatch runner sess message w)"

section \<open>The entry point (\<open>runner.py\<close>)\<close>

definition SESSION_DB_FILE :: pystr where
  "SESSION_DB_FILE = py ''agents_sessions.sqlite3''"

subsection \<open>Text normalizers\<close>

text \<open>All four patterns are compiled with \<open>re.M\<close> and without \<open>re.I\<close>.\<close>

definition SCHED_MD_LABEL :: rx where
  "SCHED_MD_LABEL = seqs
     [Bol, spaces, Lit (py ''-''), spaces, Lit (py ''**''), Grp (Rep Any_but_nl 1 None False),
      Lit (py ''**:''), spaces]"

definition SCHED_BULLETS :: rx where
  "SCHED_BULLETS = seqs [Bol, spaces, Lit (py ''-''), spaces]"

text \<open>\<open>DASHES_MAP\<close>: the en dash and the em dash become a hyphen.\<close>

definition DASHES_MAP :: "int \<Rightarrow> int" where
  "DASHES_MAP c = (if c = 8211 \<or> c = 8212 then 45 else c)"

definition ADVISOR_BOLD :: rx where
  "ADVISOR_BOLD = seqs [Lit (py ''**''), Grp (Rep Any_but_nl 1 None False), Lit (py ''**'')]"

definition ADVISOR_CODEFENCE :: rx where
  "ADVISOR_CODEFENCE = alts
     [seqs [Bol, spaces, Rep (One_of [96]) 3 None True, Rep Any_but_nl 0 None False, Eol],
      seqs [Rep (One_of [96]) 3 None True, spaces, Eol]]"

definition TextNormalizer_scheduler :: "pystr \<Rightarrow> pystr" where
  "TextNormalizer_scheduler t =
     (if t = [] then t
      else
        (let s = sub SCHED_MD_LABEL False True (\<lambda>g. g @ py '': '') t;
             s = sub SCHED_BULLETS False True (\<lambda>g. []) s;
             s = map DASHES_MAP s
         in strip s))"

definition TextNormalizer_advisor :: "pystr \<Rightarrow> pystr" where
  "TextNormalizer_advisor t =
     (if t = [] then t
      else
        (let s = sub ADVISOR_CODEFENCE False True (\<lambda>g. []) t;
             s = sub ADVISOR_BOLD False True (\<lambda>g. g) s
         in strip s))"

subsection \<open>\<open>run_with_agents_sdk\<close>\<close>

record payload =
  p_session_id :: pystr
  p_agent :: pystr
  p_segments :: "segment list"
  p_response :: pystr
  p_handoff :: "pystr option"

text \<open>\<open>os.getenv(key, default)\<close> over the process environment.\<close>

definition getenv :: "(pystr \<Rightarrow> pystr option) \<Rightarrow> pystr \<Rightarrow> pystr \<Rightarrow> pystr" where
  "getenv env k d = (case env k of None \<Rightarrow> d | Some v \<Rightarrow> v)"

definition CONFIG_MESSAGE :: pystr where
  "CONFIG_MESSAGE =
     py ''Configuration issue: set OPENAI_API_KEY in your environment and restart the server.''"

definition normalize_by_agent :: "pystr \<Rightarrow> pystr \<Rightarrow> pystr" where
  "normalize_by_agent a t =
     (if a = py ''SchedulingAssistant'' then TextNormalizer_scheduler t
      else if a = py ''CourseAdvisor'' then TextNormalizer_advisor t
      else t)"

definition normalize_segment :: "segment \<Rightarrow> segment" where
  "normalize_segment s = s\<lparr>seg_text := normalize_by_agent (seg_agent s) (seg_text s)\<rparr>"

definition run_with_agents_sdk ::
  "(pystr \<Rightarrow> pystr option) \<Rightarrow> ('e, 'w) runner \<Rightarrow> pystr \<Rightarrow> pystr \<Rightarrow> 'w
     \<Rightarrow> 'e error + (payload \<times> 'w)" where
  "run_with_agents_sdk env runner message session_id w =
     (if strip (getenv env (py ''OPENAI_API_KEY'') []) = [] then
        Inr (\<lparr>p_session_id = session_id, p_agent = py ''system'', p_segments = [],
              p_response = CONFIG_MESSAGE, p_handoff = None\<rparr>, w)
      else
        (case dispatch_message runner message
                \<lparr>sid = session_id, db_file = SESSION_DB_FILE\<rparr> None w of
           Inl e \<Rightarrow> Inl e
         | Inr (routed, w') \<Rightarrow>
             (let chain = handoff_chain routed;
                  handoff = (if chain \<noteq> [] then Some (join (py '' -> '') chain) else None);
                  segs = map normalize_segment (segments routed);
                  response_text =
                    (if segs \<noteq> [] then join [10, 10] (map render segs)
                     else normalize_by_agent (agent_name routed) (combined routed));
                  last_agent = (if segs \<noteq> [] then seg_agent (last segs) else agent_name routed)
              in Inr (\<lparr>p_session_id = session_id, p_agent = last_agent, p_segments = segs,
                       p_response = response_text, p_handoff = handoff\<rparr>, w'))))"


section \<open>A runner for the examples\<close>

text \<open>
  A stand-in for the model call, used at concrete inputs only: it answers every call with
  the same \<open>final_output\<close>, and the world is the log of the calls made so far (display
  name of the agent and prompt).
\<close>

definition fixed_runner :: "pystr option \<Rightarrow> (unit, (pystr \<times> pystr) list) runner" where
  "fixed_runner out a prompt sess w = Inr (out, w @ [(name a, prompt)])"

definition session1 :: session where
  "session1 = \<lparr>sid = py ''s1'', db_file = SESSION_DB_FILE\<rparr>"


section \<open>Facts about keys, agents and trimming\<close>

lemma keys_neq:
  "poet \<noteq> scheduler" "poet \<noteq> advisor" "scheduler \<noteq> advisor"
  "scheduler \<noteq> poet" "advisor \<noteq> poet" "advisor \<noteq> scheduler"
  by (simp_all add: poet_def scheduler_def advisor_def py_def)

lemma AGENT_ORDER_keys:
  "AGENT_ORDER poet = 0" "AGENT_ORDER scheduler = 1" "AGENT_ORDER advisor = 2"
  by (simp_all add: AGENT_ORDER_def keys_neq)

lemma set_AGENT_KEYS: "set AGENT_KEYS = {poet, scheduler, advisor}"
  by (simp add: AGENT_KEYS_def)

lemma inj_on_AGENT_ORDER: "inj_on AGENT_ORDER (set AGENT_KEYS)"
  by (auto simp: set_AGENT_KEYS AGENT_ORDER_keys inj_on_def)

lemma get_agents_simps:
  "get_agents (py ''triage'') = Some \<lparr>name = py ''Triage''\<rparr>"
  "get_agents poet = Some \<lparr>name = py ''UniversityPoet''\<rparr>"
  "get_agents scheduler = Some \<lparr>name = py ''SchedulingAssistant''\<rparr>"
  "get_agents advisor = Some \<lparr>name = py ''CourseAdvisor''\<rparr>"
  by (simp_all add: get_agents_def build_agents_def poet_def scheduler_def advisor_def py_def)

lemma strip_empty_iff: "strip s = [] \<longleftrightarrow> list_all is_space s"
proof
  assume "strip s = []"
  then have a: "\<forall>x\<in>set (dropWhile is_space s). is_space x"
    by (simp add: strip_def dropWhile_eq_Nil_conv)
  have "dropWhile is_space s = []"
  proof (rule ccontr)
    assume n: "dropWhile is_space s \<noteq> []"
    then have "\<not> is_space (hd (dropWhile is_space s))" by (rule hd_dropWhile)
    moreover from n have "hd (dropWhile is_space s) \<in> set (dropWhile is_space s)" by simp
    ultimately show False using a by blast
  qed
  then show "list_all is_space s" by (simp add: dropWhile_eq_Nil_conv list_all_iff)
next
  assume "list_all is_space s"
  then have "dropWhile is_space s = []" by (simp add: dropWhile_eq_Nil_conv list_all_iff)
  then show "strip s = []" unfolding strip_def by (simp del: dropWhile_eq_Nil_conv)
qed

lemma agent_display_simps:
  "agent_display poet = py ''UniversityPoet''"
  "agent_display scheduler = py ''SchedulingAssistant''"
  "agent_display advisor = py ''CourseAdvisor''"
  by (simp_all add: agent_display_def get_agents_simps)

lemma get_agents_key:
  "k \<in> set AGENT_KEYS \<Longrightarrow> get_agents k = Some \<lparr>name = agent_display k\<rparr>"
  by (auto simp: set_AGENT_KEYS get_agents_simps agent_display_simps)


section \<open>Properties of the plan builder\<close>

lemma set_fromkeys: "set (fromkeys seen ks) = set ks - set seen"
  by (induction ks arbitrary: seen) auto

lemma distinct_fromkeys: "distinct (fromkeys seen ks)"
  by (induction ks arbitrary: seen) (auto simp: set_fromkeys)

lemma set_order_plan: "set (order_plan plan) = set plan"
  by (simp add: order_plan_def set_fromkeys)

lemma distinct_order_plan: "distinct (order_plan plan)"
  by (simp add: order_plan_def distinct_fromkeys)

lemma sorted_order_plan: "sorted (map AGENT_ORDER (order_plan plan))"
  by (simp add: order_plan_def)

lemma order_plan_single: "order_plan [k] = [k]"
  by (simp add: order_plan_def)

lemma strict_order_plan:
  assumes "set plan \<subseteq> set AGENT_KEYS"
  shows "sorted_wrt (\<lambda>a b. AGENT_ORDER a < AGENT_ORDER b) (order_plan plan)"
proof -
  have "inj_on AGENT_ORDER (set (order_plan plan))"
    using assms inj_on_AGENT_ORDER by (auto simp: set_order_plan intro: inj_on_subset)
  then have "distinct (map AGENT_ORDER (order_plan plan))"
    by (simp add: distinct_map distinct_order_plan)
  with sorted_order_plan have "sorted_wrt (<) (map AGENT_ORDER (order_plan plan))"
    by (simp add: strict_sorted_iff)
  then show ?thesis by (simp add: sorted_wrt_map)
qed

lemma appended_plan_keys: "set (appended_plan label message) \<subseteq> set AGENT_KEYS"
  by (auto simp: appended_plan_def advisor_step_def schedule_step_def poem_step_def
      seed_step_def set_AGENT_KEYS Let_def)

lemma appended_plan_nonempty: "appended_plan label message \<noteq> []"
  by (simp add: appended_plan_def advisor_step_def)

lemma set_plan_for: "set (plan_for label message) = set (appended_plan label message)"
  by (simp add: plan_for_def set_order_plan)

lemma poet_first:
  assumes "poet \<in> set (plan_for label message)"
  shows "hd (plan_for label message) = poet"
proof (cases "plan_for label message")
  case Nil
  with assms show ?thesis by simp
next
  case (Cons x xs)
  have "sorted_wrt (\<lambda>a b. AGENT_ORDER a < AGENT_ORDER b) (x # xs)"
    using strict_order_plan [OF appended_plan_keys, of label message] Cons
    by (simp add: plan_for_def)
  then have "\<forall>y\<in>set xs. AGENT_ORDER x < AGENT_ORDER y" by simp
  then have "poet \<notin> set xs" by (auto simp: AGENT_ORDER_keys)
  with assms Cons show ?thesis by simp
qed

text \<open>
  Claim C1. The plan builder returns exactly when the router call returns, with the plan
  computed from the router's label; and for every label and every message that plan is
  not empty, has no key twice, holds specialist keys only, and lists them in strictly
  increasing priority (poet before scheduler before advisor).
\<close>

theorem plan_invariant:
  "build_plan runner sess message w =
     (case runner \<lparr>name = py ''Triage''\<rparr> message sess w of
        Inl e \<Rightarrow> Inl (RunFailure e)
      | Inr (out, w') \<Rightarrow> Inr (plan_for (triage_label out) message, w'))
   \<and> plan_for label message \<noteq> []
   \<and> distinct (plan_for label message)
   \<and> sorted_wrt (\<lambda>a b. AGENT_ORDER a < AGENT_ORDER b) (plan_for label message)
   \<and> set (plan_for label message) \<subseteq> set AGENT_KEYS"
proof -
  have "build_plan runner sess message w =
     (case runner \<lparr>name = py ''Triage''\<rparr> message sess w of
        Inl e \<Rightarrow> Inl (RunFailure e)
      | Inr (out, w') \<Rightarrow> Inr (plan_for (triage_label out) message, w'))"
    by (simp add: build_plan_def get_agents_simps)
  moreover have "set (plan_for label message) \<noteq> {}"
    using appended_plan_nonempty [of label message] by (simp add: set_plan_for)
  then have "plan_for label message \<noteq> []" by auto
  moreover have "distinct (plan_for label message)"
    by (simp add: plan_for_def distinct_order_plan)
  moreover have "sorted_wrt (\<lambda>a b. AGENT_ORDER a < AGENT_ORDER b) (plan_for label message)"
    by (simp add: plan_for_def strict_order_plan appended_plan_keys)
  moreover have "set (plan_for label message) \<subseteq> set AGENT_KEYS"
    using appended_plan_keys by (simp add: set_plan_for)
  ultimately show ?thesis by blast
qed

text \<open>
  Claim C1, at a concrete input: the router answers \<open>Scheduler\<close> (with a trailing blank)
  to the message \<open>when are finals?\<close>; the plan is the scheduler alone, after one call of
  the router.
\<close>

theorem plan_invariant_witness:
  "build_plan (fixed_runner (Some (py ''Scheduler ''))) session1 (py ''when are finals?'') []
     = Inr ([scheduler], [(py ''Triage'', py ''when are finals?'')])
   \<and> plan_for scheduler (py ''when are finals?'') = [scheduler]"
proof -
  have l: "triage_label (Some (py ''Scheduler '')) = scheduler" by code_simp
  have p: "plan_for scheduler (py ''when are finals?'') = [scheduler]" by code_simp
  show ?thesis
    using plan_invariant [of "fixed_runner (Some (py ''Scheduler ''))" session1
        "py ''when are finals?''" "[]" scheduler]
    by (simp add: l p fixed_runner_def)
qed

text \<open>
  Claim C2, as stated, fails: the router's label seeds the plan, so a campus poem
  request with no explicit schedule ask still gets the scheduler when the router
  answers \<open>scheduler\<close>.
\<close>

theorem poem_only_counterexample:
  "has_poem_intent (py ''a haiku about the library'')
   \<and> poem_is_campus (py ''a haiku about the library'')
   \<and> \<not> explicit_schedule (py ''a haiku about the library'')
   \<and> build_plan (fixed_runner (Some (py ''scheduler''))) session1
        (py ''a haiku about the library'') []
       = Inr ([poet, scheduler], [(py ''Triage'', py ''a haiku about the library'')])"
proof -
  have "has_poem_intent (py ''a haiku about the library'')" by code_simp
  moreover have "poem_is_campus (py ''a haiku about the library'')" by code_simp
  moreover have "\<not> explicit_schedule (py ''a haiku about the library'')" by code_simp
  moreover have "triage_label (Some (py ''scheduler'')) = scheduler" by code_simp
  moreover have "plan_for scheduler (py ''a haiku about the library'') = [poet, scheduler]"
    by code_simp
  ultimately show ?thesis by (simp add: build_plan_def get_agents_simps fixed_runner_def)
qed

text \<open>
  Claim C2, amended. For every message with poem intent on a campus topic and no
  explicit schedule ask, and for every router label, the first element of the plan is
  the poet key, and the scheduler key is in the plan exactly when the router's label is
  the scheduler key.
\<close>

theorem poem_only_plan:
  assumes "has_poem_intent message" and "poem_is_campus message"
    and "\<not> explicit_schedule message"
  shows "hd (plan_for label message) = poet
    \<and> (scheduler \<in> set (plan_for label message) \<longleftrightarrow> label = scheduler)"
proof -
  have "poet \<in> set (appended_plan label message)"
    using assms
    by (auto simp: appended_plan_def advisor_step_def schedule_step_def poem_step_def Let_def)
  then have "hd (plan_for label message) = poet"
    by (simp add: poet_first set_plan_for)
  moreover have "scheduler \<in> set (appended_plan label message) \<longleftrightarrow> label = scheduler"
    using assms
    by (auto simp: appended_plan_def advisor_step_def schedule_step_def poem_step_def
        seed_step_def set_AGENT_KEYS keys_neq Let_def)
  ultimately show ?thesis by (simp add: set_plan_for)
qed

theorem poem_only_plan_witness:
  "has_poem_intent (py ''a haiku about exams'')
   \<and> poem_is_campus (py ''a haiku about exams'')
   \<and> \<not> explicit_schedule (py ''a haiku about exams'')
   \<and> hd (plan_for advisor (py ''a haiku about exams'')) = poet
   \<and> scheduler \<notin> set (plan_for advisor (py ''a haiku about exams''))"
proof -
  have h1: "has_poem_intent (py ''a haiku about exams'')" by code_simp
  have h2: "poem_is_campus (py ''a haiku about exams'')" by code_simp
  have h3: "\<not> explicit_schedule (py ''a haiku about exams'')" by code_simp
  from poem_only_plan [OF h1 h2 h3, of advisor] h1 h2 h3 show ?thesis
    by (simp add: keys_neq)
qed

text \<open>
  Claim C5, as stated, fails: on a message with no signal at all the plan is the
  router's label when that label is a specialist key.
\<close>

theorem no_signal_counterexample:
  "\<not> has_course_intent (py ''hello'') \<and> \<not> has_schedule_intent (py ''hello'')
   \<and> \<not> has_poem_intent (py ''hello'') \<and> \<not> has_summary_intent (py ''hello'')
   \<and> build_plan (fixed_runner (Some (py ''poet''))) session1 (py ''hello'') []
       = Inr ([poet], [(py ''Triage'', py ''hello'')])"
proof -
  have "\<not> has_course_intent (py ''hello'')" by code_simp
  moreover have "\<not> has_schedule_intent (py ''hello'')" by code_simp
  moreover have "\<not> has_poem_intent (py ''hello'')" by code_simp
  moreover have "\<not> has_summary_intent (py ''hello'')" by code_simp
  moreover have "triage_label (Some (py ''poet'')) = poet" by code_simp
  moreover have "plan_for poet (py ''hello'') = [poet]" by code_simp
  ultimately show ?thesis by (simp add: build_plan_def get_agents_simps fixed_runner_def)
qed

text \<open>
  Claim C5, amended. For every message on which neither the course, the schedule nor
  the poem detector fires, the plan is the one-element list of the router's label when
  that label is a specialist key, and the one-element list of the advisor key for every
  other label.
\<close>

theorem no_signal_plan:
  assumes "\<not> has_course_intent message" and "\<not> has_schedule_intent message"
    and "\<not> has_poem_intent message"
  shows "plan_for label message = (if label \<in> set AGENT_KEYS then [label] else [advisor])"
  using assms
  by (simp add: plan_for_def appended_plan_def advisor_step_def schedule_step_def
      poem_step_def seed_step_def order_plan_single)

theorem no_signal_plan_witness:
  "\<not> has_course_intent (py ''hi there'') \<and> \<not> has_schedule_intent (py ''hi there'')
   \<and> \<not> has_poem_intent (py ''hi there'')
   \<and> plan_for (py ''none'') (py ''hi there'') = [advisor]
   \<and> plan_for scheduler (py ''hi there'') = [scheduler]"
proof -
  have h1: "\<not> has_course_intent (py ''hi there'')" by code_simp
  have h2: "\<not> has_schedule_intent (py ''hi there'')" by code_simp
  have h3: "\<not> has_poem_intent (py ''hi there'')" by code_simp
  have k: "py ''none'' \<notin> set AGENT_KEYS" "scheduler \<in> set AGENT_KEYS" by code_simp+
  from no_signal_plan [OF h1 h2 h3, of "py ''none''"] no_signal_plan [OF h1 h2 h3, of scheduler]
    h1 h2 h3 k
  show ?thesis by simp
qed

text \<open>
  Claim C9. The schedule step appends the scheduler exactly when the message has
  schedule intent and an explicit schedule ask, that is, a match of the broad
  interrogative or temporal pattern or of the field-and-question-mark pattern; the
  poem-only test of the source does not change the outcome. In the plan returned, the
  scheduler key is therefore present exactly when the router's label is the scheduler key
  or the message has schedule intent and an explicit schedule ask.
\<close>

theorem schedule_step_explicit_ask:
  "schedule_step message plan =
     (if has_schedule_intent message
         \<and> (search EXPLICIT_TIME_ASK True False message
              \<or> search FIELD_QUESTION True False message)
      then plan @ [scheduler] else plan)
   \<and> (scheduler \<in> set (plan_for label message) \<longleftrightarrow>
        label = scheduler
        \<or> (has_schedule_intent message
            \<and> (search EXPLICIT_TIME_ASK True False message
                 \<or> search FIELD_QUESTION True False message)))"
proof -
  have a: "schedule_step message plan =
     (if has_schedule_intent message
         \<and> (search EXPLICIT_TIME_ASK True False message
              \<or> search FIELD_QUESTION True False message)
      then plan @ [scheduler] else plan)" for plan
    by (auto simp: schedule_step_def explicit_schedule_def Let_def)
  have "scheduler \<in> set (appended_plan label message) \<longleftrightarrow>
        label = scheduler
        \<or> (has_schedule_intent message
            \<and> (search EXPLICIT_TIME_ASK True False message
                 \<or> search FIELD_QUESTION True False message))"
    unfolding appended_plan_def a
    by (auto simp: advisor_step_def poem_step_def seed_step_def set_AGENT_KEYS keys_neq)
  with a show ?thesis by (simp add: set_plan_for)
qed

text \<open>
  Claim C9, at concrete inputs: a campus poem request with an explicit ask gets the
  scheduler appended, and one that only mentions exams does not; with the router's label
  \<open>advisor\<close> the scheduler is in the plan of the first and not in the plan of the second.
\<close>

theorem schedule_step_explicit_ask_witness:
  "has_schedule_intent (py ''haiku: when are exams'')
   \<and> search EXPLICIT_TIME_ASK True False (py ''haiku: when are exams'')
   \<and> schedule_step (py ''haiku: when are exams'') [poet] = [poet, scheduler]
   \<and> scheduler \<in> set (plan_for advisor (py ''haiku: when are exams''))
   \<and> has_schedule_intent (py ''a haiku about exams'')
   \<and> \<not> search EXPLICIT_TIME_ASK True False (py ''a haiku about exams'')
   \<and> \<not> search FIELD_QUESTION True False (py ''a haiku about exams'')
   \<and> schedule_step (py ''a haiku about exams'') [poet] = [poet]
   \<and> scheduler \<notin> set (plan_for advisor (py ''a haiku about exams''))"
proof -
  have a1: "has_schedule_intent (py ''haiku: when are exams'')" by code_simp
  have a2: "search EXPLICIT_TIME_ASK True False (py ''haiku: when are exams'')" by code_simp
  have b1: "has_schedule_intent (py ''a haiku about exams'')" by code_simp
  have b2: "\<not> search EXPLICIT_TIME_ASK True False (py ''a haiku about exams'')" by code_simp
  have b3: "\<not> search FIELD_QUESTION True False (py ''a haiku about exams'')" by code_simp
  from schedule_step_explicit_ask [of "py ''haiku: when are exams''" "[poet]" advisor]
    schedule_step_explicit_ask [of "py ''a haiku about exams''" "[poet]" advisor]
    a1 a2 b1 b2 b3
  show ?thesis by (simp add: keys_neq)
qed


section \<open>Schedule-field extraction\<close>

lemma subseq_map_filter: "subseq (map f (filter P xs)) (map f xs)"
  by (induction xs) auto

lemma field_names:
  "map snd PATTERNS_TO_FIELDS =
     [py ''midterms_window'', py ''finals_window'', py ''finals_window'',
      py ''add_drop_deadline'', py ''term_start'', py ''graduation_ceremony'',
      py ''class_times'']"
  by (simp add: PATTERNS_TO_FIELDS_def)

lemma field_neq:
  "py ''midterms_window'' \<noteq> py ''finals_window''"
  "py ''add_drop_deadline'' \<noteq> py ''finals_window''"
  "py ''term_start'' \<noteq> py ''finals_window''"
  "py ''graduation_ceremony'' \<noteq> py ''finals_window''"
  "py ''class_times'' \<noteq> py ''finals_window''"
  "py ''midterms_window'' \<noteq> py ''add_drop_deadline''"
  "py ''midterms_window'' \<noteq> py ''term_start''"
  "py ''midterms_window'' \<noteq> py ''graduation_ceremony''"
  "py ''midterms_window'' \<noteq> py ''class_times''"
  "py ''add_drop_deadline'' \<noteq> py ''term_start''"
  "py ''add_drop_deadline'' \<noteq> py ''graduation_ceremony''"
  "py ''add_drop_deadline'' \<noteq> py ''class_times''"
  "py ''term_start'' \<noteq> py ''graduation_ceremony''"
  "py ''term_start'' \<noteq> py ''class_times''"
  "py ''graduation_ceremony'' \<noteq> py ''class_times''"
  by (simp_all add: py_def)

lemma count_filter_le: "count_list (map f (filter P xs)) a \<le> count_list (map f xs) a"
  by (induction xs) auto

text \<open>
  Claim C3, amended. For every message the schedule-field extraction returns, in the
  order of the pattern table, one canonical field name for each pattern that matches the
  lowercased message: the result is a subsequence of the table's name column, a name is
  in it exactly when one of its patterns matches, every name other than
  \<open>finals_window\<close> occurs at most once, and \<open>finals_window\<close> occurs once for each of its two
  patterns (final/finals and exam/exams) that matches.
\<close>

theorem schedule_fields_order_and_multiplicity:
  "subseq (requested_schedule_fields msg)
      [py ''midterms_window'', py ''finals_window'', py ''finals_window'',
       py ''add_drop_deadline'', py ''term_start'', py ''graduation_ceremony'',
       py ''class_times'']
   \<and> (f \<in> set (requested_schedule_fields msg) \<longleftrightarrow>
        list_ex (\<lambda>pf. snd pf = f \<and> search (fst pf) True False (lower msg)) PATTERNS_TO_FIELDS)
   \<and> (f \<noteq> py ''finals_window'' \<longrightarrow> count_list (requested_schedule_fields msg) f \<le> 1)
   \<and> count_list (requested_schedule_fields msg) (py ''finals_window'') =
        (if search P_FINAL True False (lower msg) then 1 else 0)
        + (if search P_EXAM True False (lower msg) then 1 else 0)"
proof -
  have "subseq (requested_schedule_fields msg) (map snd PATTERNS_TO_FIELDS)"
    by (simp add: requested_schedule_fields_def subseq_map_filter)
  then have a: "subseq (requested_schedule_fields msg)
      [py ''midterms_window'', py ''finals_window'', py ''finals_window'',
       py ''add_drop_deadline'', py ''term_start'', py ''graduation_ceremony'',
       py ''class_times'']"
    by (simp only: field_names)
  have b: "f \<in> set (requested_schedule_fields msg) \<longleftrightarrow>
        list_ex (\<lambda>pf. snd pf = f \<and> search (fst pf) True False (lower msg)) PATTERNS_TO_FIELDS"
    by (auto simp: requested_schedule_fields_def list_ex_iff)
  have "count_list (requested_schedule_fields msg) f \<le> count_list (map snd PATTERNS_TO_FIELDS) f"
    by (simp add: requested_schedule_fields_def count_filter_le)
  moreover have "f \<noteq> py ''finals_window'' \<Longrightarrow> count_list (map snd PATTERNS_TO_FIELDS) f \<le> 1"
    using field_neq by (auto simp: field_names)
  ultimately have c: "f \<noteq> py ''finals_window'' \<longrightarrow> count_list (requested_schedule_fields msg) f \<le> 1"
    by fastforce
  have d: "count_list (requested_schedule_fields msg) (py ''finals_window'') =
        (if search P_FINAL True False (lower msg) then 1 else 0)
        + (if search P_EXAM True False (lower msg) then 1 else 0)"
    by (simp add: requested_schedule_fields_def PATTERNS_TO_FIELDS_def Let_def field_neq
        field_neq [symmetric])
  from a b c d show ?thesis by blast
qed

text \<open>
  Claim C3, as stated, fails: two rows of the table carry \<open>finals_window\<close>, and the
  message \<open>final exam\<close> matches both, so the name is returned twice.
\<close>

theorem schedule_fields_counterexample:
  "requested_schedule_fields (py ''final exam'') = [py ''finals_window'', py ''finals_window'']
   \<and> \<not> distinct (requested_schedule_fields (py ''final exam''))"
proof -
  have "requested_schedule_fields (py ''final exam'') = [py ''finals_window'', py ''finals_window'']"
    by code_simp
  then show ?thesis by simp
qed

text \<open>Claim C3, amended, at the message \<open>Midterm and final exam\<close>.\<close>

theorem schedule_fields_witness:
  "py ''midterms_window'' \<noteq> py ''finals_window''
   \<and> requested_schedule_fields (py ''Midterm and final exam'')
       = [py ''midterms_window'', py ''finals_window'', py ''finals_window'']
   \<and> count_list (requested_schedule_fields (py ''Midterm and final exam'')) (py ''midterms_window'') \<le> 1
   \<and> count_list (requested_schedule_fields (py ''Midterm and final exam'')) (py ''finals_window'') = 2"
proof -
  have n: "py ''midterms_window'' \<noteq> py ''finals_window''" by (simp add: py_def)
  have r: "requested_schedule_fields (py ''Midterm and final exam'')
       = [py ''midterms_window'', py ''finals_window'', py ''finals_window'']"
    by code_simp
  have s: "search P_FINAL True False (lower (py ''Midterm and final exam''))"
    "search P_EXAM True False (lower (py ''Midterm and final exam''))" by code_simp+
  from schedule_fields_order_and_multiplicity
         [of "py ''Midterm and final exam''" "py ''midterms_window''"] n r s
  show ?thesis by simp
qed


section \<open>Execution: replies, segments and the forced path\<close>








text \<open>
  Claim C6. With a forced key that is one of the three specialist keys, the dispatch is
  one call of the runner, on that specialist and the raw message: when the call returns,
  the result has the single segment of that specialist, the handoff chain
  \<open>Forced\<close>, display name, and the world the call left; when it raises, so does the
  dispatch. With any other forced key the result is that of the dispatch without a
  forced key.
\<close>

theorem forced_dispatch:
  "(k \<in> set AGENT_KEYS \<longrightarrow>
      DISPLAY_TO_KEY (agent_display k) = k
      \<and> dispatch_message runner message sess (Some k) w =
          (case runner \<lparr>name = agent_display k\<rparr> message sess w of
             Inl e \<Rightarrow> Inl (RunFailure e)
           | Inr (out, w') \<Rightarrow>
               Inr (\<lparr>segments = [\<lparr>seg_agent = agent_display k, seg_text = reply_text out\<rparr>],
                     handoff_chain = [py ''Forced'', agent_display k],
                     agent_key = k, agent_name = agent_display k,
                     combined = reply_text out\<rparr>, w')))
   \<and> (k \<notin> set AGENT_KEYS \<longrightarrow>
        dispatch_message runner message sess (Some k) w =
          dispatch_message runner message sess None w)"
proof -
  have "DISPLAY_TO_KEY (agent_display k) = k" if "k \<in> set AGENT_KEYS"
    using that
    by (auto simp: set_AGENT_KEYS agent_display_simps DISPLAY_TO_KEY_def)
       (simp_all add: py_def poet_def scheduler_def advisor_def)
  moreover have "dispatch_message runner message sess (Some k) w =
          (case runner \<lparr>name = agent_display k\<rparr> message sess w of
             Inl e \<Rightarrow> Inl (RunFailure e)
           | Inr (out, w') \<Rightarrow>
               Inr (\<lparr>segments = [\<lparr>seg_agent = agent_display k, seg_text = reply_text out\<rparr>],
                     handoff_chain = [py ''Forced'', agent_display k],
                     agent_key = k, agent_name = agent_display k,
                     combined = reply_text out\<rparr>, w'))"
    if "k \<in> set AGENT_KEYS"
    using that
    by (auto simp: dispatch_message_def get_agents_key reply_text_def strip_empty_iff Let_def
        split: sum.splits)
  moreover have "dispatch_message runner message sess (Some k) w =
          dispatch_message runner message sess None w" if "k \<notin> set AGENT_KEYS"
    using that by (simp add: dispatch_message_def)
  ultimately show ?thesis by blast
qed

text \<open>
  Claim C6, at concrete inputs: forcing \<open>poet\<close> on the message \<open>hi\<close> makes one call, to the
  poet; forcing the unknown key \<open>bard\<close> is the default routing.
\<close>

theorem forced_dispatch_witness:
  "poet \<in> set AGENT_KEYS
   \<and> dispatch_message (fixed_runner (Some (py '' a haiku ''))) (py ''hi'') session1 (Some poet) []
       = Inr (\<lparr>segments = [\<lparr>seg_agent = py ''UniversityPoet'', seg_text = py ''a haiku''\<rparr>],
               handoff_chain = [py ''Forced'', py ''UniversityPoet''],
               agent_key = poet, agent_name = py ''UniversityPoet'',
               combined = py ''a haiku''\<rparr>,
              [(py ''UniversityPoet'', py ''hi'')])
   \<and> py ''bard'' \<notin> set AGENT_KEYS
   \<and> dispatch_message (fixed_runner (Some (py '' a haiku ''))) (py ''hi'') session1
         (Some (py ''bard'')) []
       = dispatch_message (fixed_runner (Some (py '' a haiku ''))) (py ''hi'') session1 None []"
proof -
  have k: "poet \<in> set AGENT_KEYS" by (simp add: set_AGENT_KEYS)
  have n: "py ''bard'' \<notin> set AGENT_KEYS" by code_simp
  have r: "reply_text (Some (py '' a haiku '')) = py ''a haiku''" by code_simp
  from forced_dispatch [of poet "fixed_runner (Some (py '' a haiku ''))" "py ''hi''" session1 "[]"]
    forced_dispatch [of "py ''bard''" "fixed_runner (Some (py '' a haiku ''))" "py ''hi''"
      session1 "[]"]
    k n r
  show ?thesis by (simp add: fixed_runner_def agent_display_simps)
qed

section \<open>Missing configuration\<close>

lemma CONFIG_MESSAGE_names_key: "contains (py ''OPENAI_API_KEY'') CONFIG_MESSAGE"
  by code_simp

text \<open>
  Claim C7. When the variable \<open>OPENAI_API_KEY\<close> is absent from the environment (or holds
  white space only), the top-level run returns, for every message and session
  identifier, the fixed payload: agent \<open>system\<close>, no segment, no handoff, and the fixed
  message, which names the variable; the runner is not called and the world is unchanged.
\<close>

theorem missing_api_key:
  assumes "case env (py ''OPENAI_API_KEY'') of None \<Rightarrow> True | Some v \<Rightarrow> list_all is_space v"
  shows "run_with_agents_sdk env runner message session_id w =
           Inr (\<lparr>p_session_id = session_id, p_agent = py ''system'', p_segments = [],
                 p_response = CONFIG_MESSAGE, p_handoff = None\<rparr>, w)
         \<and> contains (py ''OPENAI_API_KEY'') CONFIG_MESSAGE"
proof -
  from assms have "strip (getenv env (py ''OPENAI_API_KEY'') []) = []"
    by (auto simp: getenv_def strip_empty_iff split: option.splits)
  then show ?thesis
    by (simp add: run_with_agents_sdk_def CONFIG_MESSAGE_names_key)
qed

text \<open>Claim C7, with an empty environment and with a blank value of the variable.\<close>

theorem missing_api_key_witness:
  "run_with_agents_sdk (\<lambda>k. None) (fixed_runner (Some (py ''x''))) (py ''hi'') (py ''s1'') []
     = Inr (\<lparr>p_session_id = py ''s1'', p_agent = py ''system'', p_segments = [],
             p_response = py ''Configuration issue: set OPENAI_API_KEY in your environment and restart the server.'',
             p_handoff = None\<rparr>, [])
   \<and> run_with_agents_sdk (\<lambda>k. if k = py ''OPENAI_API_KEY'' then Some (py ''  '') else None)
        (fixed_runner (Some (py ''x''))) (py ''hi'') (py ''s1'') []
     = Inr (\<lparr>p_session_id = py ''s1'', p_agent = py ''system'', p_segments = [],
             p_response = CONFIG_MESSAGE, p_handoff = None\<rparr>, [])"
proof -
  have b: "list_all is_space (py ''  '')" by code_simp
  from missing_api_key [of "\<lambda>k. None" "fixed_runner (Some (py ''x''))" "py ''hi''" "py ''s1''" "[]"]
    missing_api_key [of "\<lambda>k. if k = py ''OPENAI_API_KEY'' then Some (py ''  '') else None"
      "fixed_runner (Some (py ''x''))" "py ''hi''" "py ''s1''" "[]"] b
  show ?thesis by (simp add: CONFIG_MESSAGE_def)
qed


section \<open>The scheduler prompt and course codes\<close>

lemma takeWhile_none: "\<forall>x\<in>set xs. \<not> P x \<Longrightarrow> takeWhile P xs = []"
  by (cases xs) auto

lemma course_code_needs_upper:
  assumes "\<forall>c\<in>set m. \<not> (65 \<le> c \<and> c \<le> 90)"
  shows "rx_ends COURSE_CODE False False m b = []"
proof -
  have "\<forall>c\<in>set (drop b m). \<not> cls_ok (Range 65 90) c"
    using assms by (auto dest: in_set_dropD)
  then have "takeWhile (cls_ok (Range 65 90)) (drop b m) = []"
    by (rule takeWhile_none)
  then have "rx_ends (Rep (Range 65 90) 2 (Some 4) True) False False m b = []"
    by (simp add: rep_counts_def)
  then show ?thesis by (simp add: COURSE_CODE_def)
qed

lemma no_upper_no_course_code:
  "\<forall>c\<in>set m. \<not> (65 \<le> c \<and> c \<le> 90) \<Longrightarrow> \<not> search COURSE_CODE False False m"
  by (simp add: search_def search_from_def first_match_None course_code_needs_upper)

lemma lower_no_upper: "\<forall>c\<in>set (lower m). \<not> (65 \<le> c \<and> c \<le> 90)"
  by (auto simp: lower_def lower_cp_def is_upper_def)

lemma refusal_neq:
  "fields_prompt fl \<noteq> REFUSAL_PROMPT" "DEFAULT_PROMPT \<noteq> REFUSAL_PROMPT"
  by (simp_all add: fields_prompt_def REFUSAL_PROMPT_def DEFAULT_PROMPT_def py_def)

text \<open>
  Claim C10. The course-code test reads the raw message and is case sensitive. A raw
  message with a match of the course-code pattern gets the fixed-refusal prompt. The
  pattern never matches a lowercased text, nor any text without a capital letter from A
  to Z. And every message in which the pattern has no match (as when only the letters of
  the code are lowered), and whose lowercased form has no day reference and no
  class-schedule phrase, gets the field-targeted prompt when fields were extracted and
  the default prompt otherwise, never the refusal.
\<close>

theorem course_code_case_sensitive:
  "(search COURSE_CODE False False message \<longrightarrow> scheduler_prompt message = REFUSAL_PROMPT)
   \<and> \<not> search COURSE_CODE False False (lower message)
   \<and> ((\<forall>c\<in>set message. \<not> (65 \<le> c \<and> c \<le> 90))
        \<longrightarrow> \<not> search COURSE_CODE False False message)
   \<and> (\<not> search COURSE_CODE False False message
        \<and> \<not> search SPECIFIC_DAY True False (lower message)
        \<and> \<not> search CLASS_SCHEDULE_PHRASE True False (lower message)
       \<longrightarrow> scheduler_prompt message \<noteq> REFUSAL_PROMPT
         \<and> scheduler_prompt message =
             (if requested_schedule_fields message \<noteq> []
              then fields_prompt (join (py '', '') (requested_schedule_fields message))
              else DEFAULT_PROMPT))"
proof -
  have a: "scheduler_prompt message = REFUSAL_PROMPT"
    if "search COURSE_CODE False False message"
    using that by (simp add: scheduler_prompt_def wants_specific_def)
  have b: "\<not> search COURSE_CODE False False (lower message)"
    using lower_no_upper by (rule no_upper_no_course_code)
  have c: "\<not> search COURSE_CODE False False message"
    if "\<forall>c\<in>set message. \<not> (65 \<le> c \<and> c \<le> 90)"
    using that by (rule no_upper_no_course_code)
  have d: "scheduler_prompt message \<noteq> REFUSAL_PROMPT
         \<and> scheduler_prompt message =
             (if requested_schedule_fields message \<noteq> []
              then fields_prompt (join (py '', '') (requested_schedule_fields message))
              else DEFAULT_PROMPT)"
    if "\<not> search COURSE_CODE False False message"
      and "\<not> search SPECIFIC_DAY True False (lower message)"
      and "\<not> search CLASS_SCHEDULE_PHRASE True False (lower message)"
  proof -
    from that have "\<not> wants_specific message"
      by (simp add: wants_specific_def)
    then show ?thesis
      by (simp add: scheduler_prompt_def Let_def refusal_neq)
  qed
  from a b c d show ?thesis by blast
qed

text \<open>
  Claim C10, at the message \<open>When is the DS201 exam?\<close>, at the same message with only the
  code lowered, \<open>When is the ds201 exam?\<close>, and at the message all in lower case.
\<close>

theorem course_code_case_sensitive_witness:
  "search COURSE_CODE False False (py ''When is the DS201 exam?'')
   \<and> scheduler_prompt (py ''When is the DS201 exam?'') = REFUSAL_PROMPT
   \<and> \<not> search COURSE_CODE False False (py ''When is the ds201 exam?'')
   \<and> \<not> search SPECIFIC_DAY True False (lower (py ''When is the ds201 exam?''))
   \<and> \<not> search CLASS_SCHEDULE_PHRASE True False (lower (py ''When is the ds201 exam?''))
   \<and> scheduler_prompt (py ''When is the ds201 exam?'') = fields_prompt (py ''finals_window'')
   \<and> scheduler_prompt (py ''When is the ds201 exam?'') \<noteq> REFUSAL_PROMPT
   \<and> list_all (\<lambda>c. \<not> (65 \<le> c \<and> c \<le> 90)) (py ''when is the ds201 exam?'')
   \<and> \<not> search COURSE_CODE False False (py ''when is the ds201 exam?'')"
proof -
  have u: "search COURSE_CODE False False (py ''When is the DS201 exam?'')" by code_simp
  have m: "\<not> search COURSE_CODE False False (py ''When is the ds201 exam?'')" by code_simp
  have d: "\<not> search SPECIFIC_DAY True False (lower (py ''When is the ds201 exam?''))"
    by code_simp
  have p: "\<not> search CLASS_SCHEDULE_PHRASE True False (lower (py ''When is the ds201 exam?''))"
    by code_simp
  have f: "requested_schedule_fields (py ''When is the ds201 exam?'') = [py ''finals_window'']"
    by code_simp
  have n: "list_all (\<lambda>c. \<not> (65 \<le> c \<and> c \<le> 90)) (py ''when is the ds201 exam?'')"
    by code_simp
  from course_code_case_sensitive [of "py ''When is the DS201 exam?''"]
    course_code_case_sensitive [of "py ''When is the ds201 exam?''"]
    course_code_case_sensitive [of "py ''when is the ds201 exam?''"]
    u m d p f n
  show ?thesis by (simp add: list_all_iff refusal_neq)
qed


section \<open>The text normalizers applied twice\<close>

lemma sub_no_match:
  assumes "\<not> search r ic ml s"
  shows "sub r ic ml repl s = s"
proof -
  from assms have n: "search_adv r ic ml s 0 False = None"
    by (cases "search_from r ic ml s 0") (simp_all add: search_def search_adv_def)
  show ?thesis
    unfolding sub_def by (subst sub_loop.simps) (simp add: n)
qed

lemma strip_prefix: "\<exists>ws. dropWhile is_space s = strip s @ ws"
proof -
  let ?u = "dropWhile is_space s"
  have "rev (takeWhile is_space (rev ?u) @ dropWhile is_space (rev ?u)) =
      rev (dropWhile is_space (rev ?u)) @ rev (takeWhile is_space (rev ?u))"
    by (rule rev_append)
  then have "?u = strip s @ rev (takeWhile is_space (rev ?u))"
    by (simp add: strip_def)
  then show ?thesis by blast
qed

lemma strip_idem: "strip (strip s) = strip s"
proof (cases "strip s = []")
  case True
  have "strip [] = []" by (simp add: strip_def)
  with True show ?thesis by simp
next
  case False
  obtain ws where ws: "dropWhile is_space s = strip s @ ws" using strip_prefix by blast
  with False have "dropWhile is_space s \<noteq> []" by simp
  then have "\<not> is_space (hd (dropWhile is_space s))" by (rule hd_dropWhile)
  with ws False have "\<not> is_space (hd (strip s))" by simp
  then have a: "dropWhile is_space (strip s) = strip s"
    by (simp add: dropWhile_eq_self_iff)
  have "dropWhile is_space (rev (strip s)) = rev (strip s)"
    by (simp add: strip_def)
  with a show ?thesis by (simp add: strip_def)
qed

lemma set_strip: "set (strip s) \<subseteq> set s"
proof
  fix x assume "x \<in> set (strip s)"
  then have "x \<in> set (dropWhile is_space (rev (dropWhile is_space s)))"
    by (simp add: strip_def)
  then have "x \<in> set (rev (dropWhile is_space s))" by (rule set_dropWhileD)
  then have "x \<in> set (dropWhile is_space s)" by simp
  then show "x \<in> set s" by (rule set_dropWhileD)
qed

lemma DASHES_MAP_fixed: "c \<noteq> 8211 \<Longrightarrow> c \<noteq> 8212 \<Longrightarrow> DASHES_MAP c = c"
  by (simp add: DASHES_MAP_def)

lemma DASHES_MAP_range: "DASHES_MAP c \<noteq> 8211 \<and> DASHES_MAP c \<noteq> 8212"
  by (simp add: DASHES_MAP_def)

lemma dashes_after_strip: "map DASHES_MAP (strip (map DASHES_MAP x)) = strip (map DASHES_MAP x)"
proof (rule map_idI)
  fix c assume "c \<in> set (strip (map DASHES_MAP x))"
  with set_strip have "c \<in> set (map DASHES_MAP x)" by blast
  then show "DASHES_MAP c = c" using DASHES_MAP_range by (auto intro: DASHES_MAP_fixed)
qed

lemma seq_ends_nonempty:
  "rx_ends (Seq a b) ic ml s p \<noteq> [] \<longleftrightarrow>
     (\<exists>x\<in>set (rx_ends a ic ml s p). rx_ends b ic ml s (fst x) \<noteq> [])"
  by (auto simp: concat_eq_Nil_conv)

lemma label_needs_bullet:
  assumes "rx_ends SCHED_MD_LABEL ic ml s p \<noteq> []"
  shows "rx_ends SCHED_BULLETS ic ml s p \<noteq> []"
proof -
  from assms obtain x1 x2 x3 x4 where x:
    "x1 \<in> set (rx_ends Bol ic ml s p)"
    "x2 \<in> set (rx_ends spaces ic ml s (fst x1))"
    "x3 \<in> set (rx_ends (Lit (py ''-'')) ic ml s (fst x2))"
    "x4 \<in> set (rx_ends spaces ic ml s (fst x3))"
    unfolding SCHED_MD_LABEL_def seqs.simps seq_ends_nonempty by blast
  from x(4) have "rx_ends spaces ic ml s (fst x3) \<noteq> []" by auto
  with x(1-3) show ?thesis
    unfolding SCHED_BULLETS_def seqs.simps seq_ends_nonempty by blast
qed

lemma no_bullet_no_label:
  assumes "\<not> search SCHED_BULLETS ic ml s"
  shows "\<not> search SCHED_MD_LABEL ic ml s"
proof -
  from assms have "\<forall>b\<in>set [0 ..< Suc (length s)]. rx_ends SCHED_BULLETS ic ml s b = []"
    by (simp add: search_def search_from_def first_match_None_iff)
  with label_needs_bullet have "\<forall>b\<in>set [0 ..< Suc (length s)]. rx_ends SCHED_MD_LABEL ic ml s b = []"
    by blast
  then show ?thesis
    by (simp add: search_def search_from_def first_match_None_iff)
qed

text \<open>
  Claim C4, amended. A second application of the scheduler normalizer leaves its first
  result unchanged whenever that result has no line beginning, after optional white
  space, with a hyphen (no match of the bullet pattern); a second application of the
  advisor normalizer leaves its first result unchanged whenever that result has no match
  of the code-fence pattern and none of the bold pattern.
\<close>

theorem normalizer_fixed_point:
  "(\<not> search SCHED_BULLETS False True (TextNormalizer_scheduler t)
      \<longrightarrow> TextNormalizer_scheduler (TextNormalizer_scheduler t) = TextNormalizer_scheduler t)
   \<and> (\<not> search ADVISOR_CODEFENCE False True (TextNormalizer_advisor t)
        \<and> \<not> search ADVISOR_BOLD False True (TextNormalizer_advisor t)
      \<longrightarrow> TextNormalizer_advisor (TextNormalizer_advisor t) = TextNormalizer_advisor t)"
proof -
  have a: "TextNormalizer_scheduler (TextNormalizer_scheduler t) = TextNormalizer_scheduler t"
    if nb: "\<not> search SCHED_BULLETS False True (TextNormalizer_scheduler t)"
  proof (cases "t = []")
    case True
    then show ?thesis by (simp add: TextNormalizer_scheduler_def)
  next
    case False
    define x where "x = sub SCHED_BULLETS False True (\<lambda>g. [])
        (sub SCHED_MD_LABEL False True (\<lambda>g. g @ py '': '') t)"
    from False have t': "TextNormalizer_scheduler t = strip (map DASHES_MAP x)"
      by (simp add: TextNormalizer_scheduler_def x_def Let_def)
    from nb have b: "\<not> search SCHED_BULLETS False True (strip (map DASHES_MAP x))"
      by (simp add: t')
    then have l: "\<not> search SCHED_MD_LABEL False True (strip (map DASHES_MAP x))"
      by (rule no_bullet_no_label)
    have "TextNormalizer_scheduler (strip (map DASHES_MAP x)) = strip (map DASHES_MAP x)"
      by (simp add: TextNormalizer_scheduler_def Let_def sub_no_match [OF l] sub_no_match [OF b]
          dashes_after_strip strip_idem)
    then show ?thesis by (simp add: t')
  qed
  have b: "TextNormalizer_advisor (TextNormalizer_advisor t) = TextNormalizer_advisor t"
    if nf: "\<not> search ADVISOR_CODEFENCE False True (TextNormalizer_advisor t)"
      and nbo: "\<not> search ADVISOR_BOLD False True (TextNormalizer_advisor t)"
  proof (cases "t = []")
    case True
    then show ?thesis by (simp add: TextNormalizer_advisor_def)
  next
    case False
    define x where "x = sub ADVISOR_BOLD False True (\<lambda>g. g)
        (sub ADVISOR_CODEFENCE False True (\<lambda>g. []) t)"
    from False have t': "TextNormalizer_advisor t = strip x"
      by (simp add: TextNormalizer_advisor_def x_def Let_def)
    from nf nbo have f: "\<not> search ADVISOR_CODEFENCE False True (strip x)"
      and o: "\<not> search ADVISOR_BOLD False True (strip x)"
      by (simp_all add: t')
    have "TextNormalizer_advisor (strip x) = strip x"
      by (simp add: TextNormalizer_advisor_def Let_def sub_no_match [OF f] sub_no_match [OF o]
          strip_idem)
    then show ?thesis by (simp add: t')
  qed
  from a b show ?thesis by blast
qed

text \<open>
  Claim C4, as stated, fails for both normalizers: each makes one pass, and what a pass
  uncovers is markup again. The bullet pattern removes one bullet from \<open>- - x\<close> and the
  next pass removes the other; the bold pattern unwraps the outer pair of
  \<open>****a****\<close> and the next pass the inner one.
\<close>

theorem normalizer_idempotence_counterexample:
  "TextNormalizer_scheduler (py ''- - x'') = py ''- x''
   \<and> TextNormalizer_scheduler (TextNormalizer_scheduler (py ''- - x'')) = py ''x''
   \<and> TextNormalizer_advisor (py ''****a****'') = py ''**a**''
   \<and> TextNormalizer_advisor (TextNormalizer_advisor (py ''****a****'')) = py ''a''"
proof -
  have a: "TextNormalizer_scheduler (py ''- - x'') = py ''- x''" by code_simp
  have b: "TextNormalizer_scheduler (py ''- x'') = py ''x''" by code_simp
  have c: "TextNormalizer_advisor (py ''****a****'') = py ''**a**''" by code_simp
  have d: "TextNormalizer_advisor (py ''**a**'') = py ''a''" by code_simp
  show ?thesis by (simp add: a b c d)
qed

text \<open>
  Claim C4, amended, at a scheduler line with a bold label and an advisor sentence with a
  bold course code.
\<close>

theorem normalizer_fixed_point_witness:
  "TextNormalizer_scheduler (py ''- **Finals**: May'') = py ''Finals: May''
   \<and> \<not> search SCHED_BULLETS False True (py ''Finals: May'')
   \<and> TextNormalizer_scheduler (py ''Finals: May'') = py ''Finals: May''
   \<and> TextNormalizer_advisor (py ''Take **DS201**'') = py ''Take DS201''
   \<and> \<not> search ADVISOR_CODEFENCE False True (py ''Take DS201'')
   \<and> \<not> search ADVISOR_BOLD False True (py ''Take DS201'')
   \<and> TextNormalizer_advisor (py ''Take DS201'') = py ''Take DS201''"
proof -
  have a: "TextNormalizer_scheduler (py ''- **Finals**: May'') = py ''Finals: May''"
    by code_simp
  have b: "\<not> search SCHED_BULLETS False True (py ''Finals: May'')" by code_simp
  have c: "TextNormalizer_advisor (py ''Take **DS201**'') = py ''Take DS201''" by code_simp
  have d: "\<not> search ADVISOR_CODEFENCE False True (py ''Take DS201'')" by code_simp
  have e: "\<not> search ADVISOR_BOLD False True (py ''Take DS201'')" by code_simp
  from normalizer_fixed_point [of "py ''- **Finals**: May''"]
    normalizer_fixed_point [of "py ''Take **DS201**''"] a b c d e
  show ?thesis by simp
qed

end
